theory Spec2Isabelle
  imports Complex_Main
begin

section \<open>Values, errors and floating-point results\<close>

text \<open>
  The attribute \<open>k\<close> of the detector is whatever Python value the constructor was given.
  Two numeric classes are modelled: \<open>int\<close> (unbounded) and \<open>float\<close>.
\<close>

datatype pyval = PyInt int | PyFloat real

text \<open>\<open>self.k <= 0\<close>, \<open>isinstance(self.k, int)\<close>, \<open>self.k + 1\<close> and the numeric value of \<open>k\<close>
  as it enters a floating-point division.\<close>

fun py_le_zero :: "pyval \<Rightarrow> bool" where
  "py_le_zero (PyInt n) = (n \<le> 0)"
| "py_le_zero (PyFloat r) = (r \<le> 0)"

fun isinstance_int :: "pyval \<Rightarrow> bool" where
  "isinstance_int (PyInt n) = True"
| "isinstance_int (PyFloat r) = False"

fun py_succ :: "pyval \<Rightarrow> pyval" where
  "py_succ (PyInt n) = PyInt (n + 1)"
| "py_succ (PyFloat r) = PyFloat (r + 1)"

fun py_real :: "pyval \<Rightarrow> real" where
  "py_real (PyInt n) = real_of_int n"
| "py_real (PyFloat r) = r"

text \<open>Exceptions: the class and, where the source gives one, the message.\<close>

datatype error =
    ValueError string
  | TypeError string
  | IndexError
  | ZeroDivisionError

text \<open>
  A \<open>numpy.float64\<close> result: a finite value (an exact real; rounding, overflow and the sign
  of zero are not modelled), or one of the three exceptional values that numpy's division
  produces instead of raising.
\<close>

datatype npfloat = Fin real | PInf | NInf | NaN

fun fdiv :: "npfloat \<Rightarrow> npfloat \<Rightarrow> npfloat" where
  "fdiv NaN b = NaN"
| "fdiv a NaN = NaN"
| "fdiv (Fin x) (Fin y) =
     (if y \<noteq> 0 then Fin (x / y)
      else if 0 < x then PInf else if x < 0 then NInf else NaN)"
| "fdiv (Fin x) PInf = Fin 0"
| "fdiv (Fin x) NInf = Fin 0"
| "fdiv PInf (Fin y) = (if 0 \<le> y then PInf else NInf)"
| "fdiv NInf (Fin y) = (if 0 \<le> y then NInf else PInf)"
| "fdiv PInf PInf = NaN"
| "fdiv PInf NInf = NaN"
| "fdiv NInf PInf = NaN"
| "fdiv NInf NInf = NaN"

fun fadd :: "npfloat \<Rightarrow> npfloat \<Rightarrow> npfloat" where
  "fadd NaN b = NaN"
| "fadd a NaN = NaN"
| "fadd (Fin x) (Fin y) = Fin (x + y)"
| "fadd (Fin x) PInf = PInf"
| "fadd (Fin x) NInf = NInf"
| "fadd PInf (Fin y) = PInf"
| "fadd NInf (Fin y) = NInf"
| "fadd PInf PInf = PInf"
| "fadd NInf NInf = NInf"
| "fadd PInf NInf = NaN"
| "fadd NInf PInf = NaN"

fun fmul :: "npfloat \<Rightarrow> npfloat \<Rightarrow> npfloat" where
  "fmul NaN b = NaN"
| "fmul a NaN = NaN"
| "fmul (Fin x) (Fin y) = Fin (x * y)"
| "fmul (Fin x) PInf = (if 0 < x then PInf else if x < 0 then NInf else NaN)"
| "fmul (Fin x) NInf = (if 0 < x then NInf else if x < 0 then PInf else NaN)"
| "fmul PInf (Fin y) = (if 0 < y then PInf else if y < 0 then NInf else NaN)"
| "fmul NInf (Fin y) = (if 0 < y then NInf else if y < 0 then PInf else NaN)"
| "fmul PInf PInf = PInf"
| "fmul NInf NInf = PInf"
| "fmul PInf NInf = NInf"
| "fmul NInf PInf = NInf"

text \<open>\<open>np.sum\<close> of a one-dimensional array of float64 values.\<close>

definition fsum :: "npfloat list \<Rightarrow> npfloat" where
  "fsum xs = foldr fadd xs (Fin 0)"

fun is_finite :: "npfloat \<Rightarrow> bool" where
  "is_finite (Fin x) = True"
| "is_finite PInf = False"
| "is_finite NInf = False"
| "is_finite NaN = False"

section \<open>The detector object\<close>

type_synonym matrix = "real list list"

text \<open>
  \<open>class LOF\<close>: the attribute \<open>k\<close> set by the constructor and the attribute \<open>X_\<close> (here \<open>X_stored\<close>) set by
  \<open>fit\<close> (\<open>None\<close> while unset or when \<open>fit\<close> was called without data). Objects live in a
  store indexed by reference, so that a method can return the reference it was called on.
\<close>

record LOF =
  k :: pyval
  X_stored :: "matrix option"

type_synonym ref = nat
type_synonym heap = "ref \<Rightarrow> LOF"

text \<open>\<open>__init__\<close>: stores \<open>k\<close> as given, with no check.\<close>

definition init :: "ref \<Rightarrow> pyval \<Rightarrow> heap \<Rightarrow> heap" where
  "init self kv h = h(self := \<lparr>k = kv, X_stored = None\<rparr>)"

text \<open>\<open>fit\<close>: the check on \<open>k\<close>, the assignment \<open>self.X_ = X\<close>, and \<open>return self\<close>.\<close>

definition fit :: "ref \<Rightarrow> matrix option \<Rightarrow> heap \<Rightarrow> error + (ref \<times> heap)" where
  "fit self X h =
     (if py_le_zero (k (h self)) \<or> \<not> isinstance_int (k (h self))
      then Inl (ValueError ''k needs to be a positive integer.'')
      else Inr (self, h(self := (h self)\<lparr>X_stored := X\<rparr>)))"

section \<open>Array operations used by \<open>predict\<close>\<close>

text \<open>\<open>a[i]\<close> on the first axis, and \<open>a[idx]\<close> with an index array: numpy raises
  \<open>IndexError\<close> for an index outside the axis.\<close>

definition nth_row :: "'a list \<Rightarrow> nat \<Rightarrow> error + 'a" where
  "nth_row xs i = (if i < length xs then Inr (xs ! i) else Inl IndexError)"

definition take_idx :: "'a list \<Rightarrow> nat list \<Rightarrow> error + 'a list" where
  "take_idx xs idx =
     (if \<forall>j \<in> set idx. j < length xs then Inr (map (\<lambda>j. xs ! j) idx) else Inl IndexError)"

text \<open>\<open>a[:, 1:]\<close> and \<open>a[:, -1]\<close> on a two-dimensional array; the second raises
  \<open>IndexError\<close> when the rows are empty.\<close>

definition drop_first_col :: "'a list list \<Rightarrow> 'a list list" where
  "drop_first_col a = map (drop 1) a"

definition last_col :: "'a list list \<Rightarrow> error + 'a list" where
  "last_col a = (if \<exists>row \<in> set a. row = [] then Inl IndexError else Inr (map last a))"

text \<open>A counted loop \<open>for i in xrange(n)\<close> over a state, stopping at the first exception.\<close>

fun for_loop :: "nat list \<Rightarrow> (nat \<Rightarrow> 's \<Rightarrow> error + 's) \<Rightarrow> 's \<Rightarrow> error + 's" where
  "for_loop [] body s = Inr s"
| "for_loop (i # rest) body s =
     (case body i s of Inl e \<Rightarrow> Inl e | Inr s' \<Rightarrow> for_loop rest body s')"

section \<open>The neighbor search\<close>

text \<open>
  \<open>NearestNeighbors(n_neighbors=m).fit(F).kneighbors(Q)\<close> belongs to scikit-learn, not to
  this repository. \<open>predict\<close> takes it as a parameter: a function of \<open>m\<close>, the fitted
  points \<open>F\<close> and the query points \<open>Q\<close> that raises or returns the pair
  \<open>(distances, indices)\<close>, one row per query point.
\<close>

type_synonym kneighbors = "pyval \<Rightarrow> matrix \<Rightarrow> matrix \<Rightarrow> error + (matrix \<times> nat list list)"

text \<open>The Euclidean distance of two points, written as \<open>predict\<close> computes it in its loop:
  \<open>np.sqrt(np.sum((a - b)**2))\<close>.\<close>

definition euclidean :: "real list \<Rightarrow> real list \<Rightarrow> real" where
  "euclidean a b = sqrt (sum_list (map (\<lambda>v. v\<^sup>2) (map2 (-) a b)))"

text \<open>
  Modelled from the spec: one row of the neighbor index (scikit-learn's \<open>NearestNeighbors\<close>,
  which is not under src/). For a query point it returns the \<open>m\<close> nearest fitted
  points by exact Euclidean distance as pairs of distance and index, nearest first, ties
  broken by the smaller index.
\<close>

definition brute_row :: "nat \<Rightarrow> matrix \<Rightarrow> real list \<Rightarrow> (real \<times> nat) list" where
  "brute_row m F q = take m (sort_key fst (map (\<lambda>j. (euclidean q (F ! j), j)) [0..<length F]))"

text \<open>
  Modelled from the spec: the call \<open>NearestNeighbors(n_neighbors=m).fit(F).kneighbors(Q)\<close>
  of the neighbor index, which is not under src/. It raises for a count that is a float, is
  not positive, or exceeds the number of fitted points, and otherwise returns the distance
  rows and the index rows of the query points.
\<close>

definition brute_kneighbors :: kneighbors where
  "brute_kneighbors n_neighbors F Q =
     (case n_neighbors of
        PyFloat r \<Rightarrow> Inl (TypeError ''n_neighbors does not take float value, enter integer value'')
      | PyInt m \<Rightarrow>
          if m \<le> 0 then Inl (ValueError ''Expected n_neighbors > 0'')
          else if int (length F) < m then Inl (ValueError ''Expected n_neighbors <= n_samples'')
          else Inr (map (\<lambda>q. map fst (brute_row (nat m) F q)) Q,
                    map (\<lambda>q. map snd (brute_row (nat m) F q)) Q))"

text \<open>
  Modelled from the spec: what the neighbor index (not under src/) promises about a result
  \<open>(distances, indices)\<close> for \<open>m\<close> neighbors of the points \<open>X\<close> among \<open>X\<close>: one row of
  \<open>m\<close> distinct valid indices per point, the distances being the Euclidean distances to
  the indexed points, in ascending order, and no point left out is nearer than any point
  returned.
\<close>

definition knn_row_ok :: "nat \<Rightarrow> matrix \<Rightarrow> nat \<Rightarrow> real list \<Rightarrow> nat list \<Rightarrow> bool" where
  "knn_row_ok m X i ds js \<longleftrightarrow>
     length js = m \<and> distinct js \<and> (\<forall>j \<in> set js. j < length X)
     \<and> ds = map (\<lambda>j. euclidean (X ! i) (X ! j)) js
     \<and> sorted ds
     \<and> (\<forall>j < length X. j \<notin> set js \<longrightarrow> (\<forall>d \<in> set ds. d \<le> euclidean (X ! i) (X ! j)))"

definition knn_ok :: "nat \<Rightarrow> matrix \<Rightarrow> matrix \<Rightarrow> nat list list \<Rightarrow> bool" where
  "knn_ok m X distances indices \<longleftrightarrow>
     length distances = length X \<and> length indices = length X
     \<and> (\<forall>i < length X. knn_row_ok m X i (distances ! i) (indices ! i))"

section \<open>\<open>predict\<close>\<close>

text \<open>Lines 43 to 46: the search for \<open>k + 1\<close> neighbors of the rows of \<open>X\<close> among the rows of
  \<open>X\<close>, and the removal of the first column of both results.\<close>

definition neighbor_search :: "kneighbors \<Rightarrow> pyval \<Rightarrow> matrix \<Rightarrow> error + (matrix \<times> nat list list)" where
  "neighbor_search knn kv X =
     (case knn (py_succ kv) X X of
        Inl e \<Rightarrow> Inl e
      | Inr (distances, indices) \<Rightarrow> Inr (drop_first_col distances, drop_first_col indices))"

text \<open>\<open>X[i, :] - X[indices[i], :]\<close> (the row is broadcast against each selected row) and
  \<open>np.sqrt(np.sum(temp**2, 1))\<close>.\<close>

definition row_diff :: "real list \<Rightarrow> matrix \<Rightarrow> matrix" where
  "row_diff x rows = map (\<lambda>row. map2 (-) x row) rows"

definition row_norms :: "matrix \<Rightarrow> real list" where
  "row_norms t = map (\<lambda>r. sqrt (sum_list (map (\<lambda>v. v\<^sup>2) r))) t"

text \<open>The body of the first loop up to \<open>reachability_dists\<close>: the element-wise maximum of
  the recomputed distances and the k-distances of the neighbors.\<close>

definition reachability_dists :: "matrix \<Rightarrow> nat list list \<Rightarrow> real list \<Rightarrow> nat \<Rightarrow> error + real list" where
  "reachability_dists X indices k_dists i =
     (case nth_row indices i of Inl e \<Rightarrow> Inl e | Inr idx \<Rightarrow>
      case take_idx X idx of Inl e \<Rightarrow> Inl e | Inr rows \<Rightarrow>
      case take_idx k_dists idx of Inl e \<Rightarrow> Inl e | Inr kd \<Rightarrow>
        Inr (map2 max (row_norms (row_diff (X ! i) rows)) kd))"

text \<open>\<open>self.k/sum(reachability_dists)\<close>: Python's \<open>sum\<close> of an empty array is the integer
  0, and dividing by it raises; otherwise the sum is a float64 and the division is numpy's.\<close>

definition lrd_at :: "pyval \<Rightarrow> matrix \<Rightarrow> nat list list \<Rightarrow> real list \<Rightarrow> nat \<Rightarrow> error + npfloat" where
  "lrd_at kv X indices k_dists i =
     (case reachability_dists X indices k_dists i of Inl e \<Rightarrow> Inl e | Inr rd \<Rightarrow>
        if rd = [] then Inl ZeroDivisionError
        else Inr (fdiv (Fin (py_real kv)) (Fin (sum_list rd))))"

definition lrd_step :: "pyval \<Rightarrow> matrix \<Rightarrow> nat list list \<Rightarrow> real list \<Rightarrow> nat \<Rightarrow> npfloat list \<Rightarrow> error + npfloat list" where
  "lrd_step kv X indices k_dists i lrd_value =
     (case lrd_at kv X indices k_dists i of Inl e \<Rightarrow> Inl e
      | Inr v \<Rightarrow> Inr (lrd_value[i := v]))"

text \<open>\<open>np.sum(lrd_value[indices[i]]) / lrd_value[i] / self.k\<close>.\<close>

definition lof_at :: "pyval \<Rightarrow> nat list list \<Rightarrow> npfloat list \<Rightarrow> nat \<Rightarrow> error + npfloat" where
  "lof_at kv indices lrd_value i =
     (case nth_row indices i of Inl e \<Rightarrow> Inl e | Inr idx \<Rightarrow>
      case take_idx lrd_value idx of Inl e \<Rightarrow> Inl e | Inr vals \<Rightarrow>
        Inr (fdiv (fdiv (fsum vals) (lrd_value ! i)) (Fin (py_real kv))))"

definition lof_step :: "pyval \<Rightarrow> nat list list \<Rightarrow> npfloat list \<Rightarrow> nat \<Rightarrow> npfloat list \<Rightarrow> error + npfloat list" where
  "lof_step kv indices lrd_value i lof =
     (case lof_at kv indices lrd_value i of Inl e \<Rightarrow> Inl e
      | Inr v \<Rightarrow> Inr (lof[i := v]))"

text \<open>The two loops, each over \<open>xrange(num_rows)\<close> and starting from \<open>np.zeros(num_rows)\<close>.\<close>

definition lrd_loop :: "pyval \<Rightarrow> matrix \<Rightarrow> nat list list \<Rightarrow> real list \<Rightarrow> error + npfloat list" where
  "lrd_loop kv X indices k_dists =
     for_loop [0..<length X] (lrd_step kv X indices k_dists) (replicate (length X) (Fin 0))"

definition lof_loop :: "pyval \<Rightarrow> matrix \<Rightarrow> nat list list \<Rightarrow> npfloat list \<Rightarrow> error + npfloat list" where
  "lof_loop kv X indices lrd_value =
     for_loop [0..<length X] (lof_step kv indices lrd_value) (replicate (length X) (Fin 0))"

text \<open>\<open>predict\<close>: it reads \<open>self.k\<close>, never \<open>self.X_\<close>, assigns no attribute, and returns the
  array \<open>lof\<close>; the store is returned as it was received.\<close>

definition predict :: "kneighbors \<Rightarrow> ref \<Rightarrow> matrix \<Rightarrow> heap \<Rightarrow> error + (npfloat list \<times> heap)" where
  "predict knn self X h =
     (case neighbor_search knn (k (h self)) X of Inl e \<Rightarrow> Inl e | Inr (distances, indices) \<Rightarrow>
      case last_col distances of Inl e \<Rightarrow> Inl e | Inr k_dists \<Rightarrow>
      case lrd_loop (k (h self)) X indices k_dists of Inl e \<Rightarrow> Inl e | Inr lrd_value \<Rightarrow>
      case lof_loop (k (h self)) X indices lrd_value of Inl e \<Rightarrow> Inl e | Inr lof \<Rightarrow>
        Inr (lof, h))"

text \<open>
  A successful run of \<open>predict\<close> with its local arrays named: \<open>distances\<close> and \<open>indices\<close>
  after the first column is dropped, \<open>k_dists\<close>, \<open>lrd_value\<close> and the result \<open>lof\<close>.
\<close>

definition predict_run ::
  "kneighbors \<Rightarrow> pyval \<Rightarrow> matrix \<Rightarrow> matrix \<Rightarrow> nat list list \<Rightarrow> real list \<Rightarrow> npfloat list
     \<Rightarrow> npfloat list \<Rightarrow> bool" where
  "predict_run knn kv X distances indices k_dists lrd_value lof \<longleftrightarrow>
     neighbor_search knn kv X = Inr (distances, indices)
     \<and> last_col distances = Inr k_dists
     \<and> lrd_loop kv X indices k_dists = Inr lrd_value
     \<and> lof_loop kv X indices lrd_value = Inr lof"





section \<open>Auxiliary facts\<close>

lemma for_loop_store:
  assumes body: "\<And>i s. body i s = (case g i of Inl e \<Rightarrow> Inl e | Inr v \<Rightarrow> Inr (s[i := v]))"
  shows "for_loop js body s = Inr r \<Longrightarrow> distinct js \<Longrightarrow> \<forall>i\<in>set js. i < length s \<Longrightarrow>
     length r = length s \<and> (\<forall>i\<in>set js. g i = Inr (r ! i)) \<and> (\<forall>j. j \<notin> set js \<longrightarrow> r ! j = s ! j)"
proof (induction js arbitrary: s)
  case Nil
  then show ?case by simp
next
  case (Cons i js)
  from Cons.prems(1) body[of i s] obtain v where gi: "g i = Inr v" and rest: "for_loop js body (s[i := v]) = Inr r"
    by (cases "g i") auto
  from Cons.prems have d: "distinct js" and ni: "i \<notin> set js" and il: "i < length s"
    and b: "\<forall>j\<in>set js. j < length (s[i := v])" by auto
  from Cons.IH[OF rest d b]
  have len: "length r = length s" and vals: "\<forall>j\<in>set js. g j = Inr (r ! j)"
    and frame: "\<forall>j. j \<notin> set js \<longrightarrow> r ! j = s[i := v] ! j" by auto
  from frame ni il have "r ! i = v" by simp
  with gi vals have "\<forall>j\<in>set (i # js). g j = Inr (r ! j)" by simp
  moreover have "\<forall>j. j \<notin> set (i # js) \<longrightarrow> r ! j = s ! j" using frame by simp
  ultimately show ?case using len by blast
qed

lemma lrd_loop_Inr:
  assumes "lrd_loop kv X indices k_dists = Inr lrd"
  shows "length lrd = length X" and "\<And>i. i < length X \<Longrightarrow> lrd_at kv X indices k_dists i = Inr (lrd ! i)"
  using for_loop_store[where body="lrd_step kv X indices k_dists" and g="lrd_at kv X indices k_dists"
      and js="[0..<length X]" and s="replicate (length X) (Fin 0)" and r=lrd] assms
  by (auto simp: lrd_loop_def lrd_step_def)

lemma lof_loop_Inr:
  assumes "lof_loop kv X indices lrd = Inr lof"
  shows "length lof = length X" and "\<And>i. i < length X \<Longrightarrow> lof_at kv indices lrd i = Inr (lof ! i)"
  using for_loop_store[where body="lof_step kv indices lrd" and g="lof_at kv indices lrd"
      and js="[0..<length X]" and s="replicate (length X) (Fin 0)" and r=lof] assms
  by (auto simp: lof_loop_def lof_step_def)

lemma fdiv_twice:
  assumes "0 \<le> s" and "b = fdiv (Fin c) (Fin s)"
  shows "fdiv (fdiv a b) (Fin c) = fdiv a (fmul b (Fin c))"
  using assms by (cases a; cases "s = 0"; cases "c = 0"; cases "0 < c") (auto simp: field_simps)

lemma predict_run_iff:
  "predict knn self X h = Inr (lof, h') \<longleftrightarrow>
     h' = h \<and> (\<exists>distances indices k_dists lrd.
        predict_run knn (k (h self)) X distances indices k_dists lrd lof)"
  by (auto simp: predict_def predict_run_def split: sum.splits prod.splits)

lemma map2_maps: "map2 f (map g xs) (map h xs) = map (\<lambda>x. f (g x) (h x)) xs"
  by (induction xs) auto

lemma row_norms_diff: "row_norms (row_diff x (map g js)) = map (\<lambda>j. euclidean x (g j)) js"
  by (simp add: row_norms_def row_diff_def euclidean_def comp_def)

lemma reachability_dists_Inr:
  assumes "reachability_dists X indices k_dists i = Inr rd"
  shows "i < length indices"
    and "\<forall>j \<in> set (indices ! i). j < length X \<and> j < length k_dists"
    and "rd = map (\<lambda>j. max (euclidean (X ! i) (X ! j)) (k_dists ! j)) (indices ! i)"
  using assms
  by (auto simp: reachability_dists_def nth_row_def take_idx_def row_norms_diff map2_maps
      split: if_splits)

lemma euclidean_nonneg: "0 \<le> euclidean a b"
  by (auto simp: euclidean_def intro!: sum_list_nonneg)

lemma reachability_dists_nonneg:
  assumes "reachability_dists X indices k_dists i = Inr rd"
  shows "0 \<le> sum_list rd"
proof -
  have "\<forall>d \<in> set rd. 0 \<le> d"
    using euclidean_nonneg by (auto simp: reachability_dists_Inr(3)[OF assms] max_def intro: order_trans)
  then show ?thesis by (simp add: sum_list_nonneg)
qed

lemma lrd_at_Inr:
  assumes "lrd_at kv X indices k_dists i = Inr v"
  shows "\<exists>rd. reachability_dists X indices k_dists i = Inr rd \<and> rd \<noteq> []
           \<and> v = fdiv (Fin (py_real kv)) (Fin (sum_list rd))"
  using assms by (auto simp: lrd_at_def split: sum.splits if_splits)

lemma lof_at_Inr:
  assumes "lof_at kv indices lrd i = Inr v"
  shows "i < length indices" and "\<forall>j \<in> set (indices ! i). j < length lrd"
    and "v = fdiv (fdiv (fsum (map (\<lambda>j. lrd ! j) (indices ! i))) (lrd ! i)) (Fin (py_real kv))"
  using assms by (auto simp: lof_at_def nth_row_def take_idx_def split: sum.splits if_splits)

lemma last_col_Inr:
  assumes "last_col a = Inr c"
  shows "length c = length a" and "\<And>i. i < length a \<Longrightarrow> a ! i \<noteq> [] \<and> c ! i = last (a ! i)"
proof -
  from assms have ne: "[] \<notin> set a" and c: "c = map last a"
    by (auto simp: last_col_def split: if_splits)
  show "length c = length a" using c by simp
  show "a ! i \<noteq> [] \<and> c ! i = last (a ! i)" if "i < length a" for i
  proof
    show "a ! i \<noteq> []" using ne nth_mem[OF that] by metis
    show "c ! i = last (a ! i)" using c that by simp
  qed
qed

text \<open>Unfolding rules for evaluating the model on concrete inputs.\<close>

lemmas predict_eval = brute_kneighbors_def brute_row_def euclidean_def neighbor_search_def drop_first_col_def
  last_col_def predict_def lrd_loop_def lof_loop_def lrd_step_def lof_step_def lrd_at_def lof_at_def
  reachability_dists_def nth_row_def take_idx_def row_diff_def row_norms_def fsum_def upt_rec





lemma knn_ok_row:
  assumes "knn_ok m X D0 I0" and "i < length X"
  shows "knn_row_ok m X i (D0 ! i) (I0 ! i)" and "i < length D0" and "i < length I0"
  using assms by (simp_all add: knn_ok_def)

lemma knn_ok_dropped:
  assumes ok: "knn_ok (Suc kk) X D0 I0" and i: "i < length X"
  shows "length (drop_first_col I0 ! i) = kk"
    and "length (drop_first_col D0 ! i) = kk"
    and "drop_first_col D0 ! i = map (\<lambda>j. euclidean (X ! i) (X ! j)) (drop_first_col I0 ! i)"
    and "sorted (drop_first_col D0 ! i)"
    and "\<forall>j \<in> set (drop_first_col I0 ! i). j < length X"
    and "distinct (drop_first_col I0 ! i)"
proof -
  note r = knn_ok_row[OF ok i]
  from r(1) have len: "length (I0 ! i) = Suc kk" and d: "distinct (I0 ! i)"
    and b: "\<forall>j \<in> set (I0 ! i). j < length X"
    and ds: "D0 ! i = map (\<lambda>j. euclidean (X ! i) (X ! j)) (I0 ! i)" and s: "sorted (D0 ! i)"
    unfolding knn_row_ok_def by blast+
  show "length (drop_first_col I0 ! i) = kk" using r(3) len by (simp add: drop_first_col_def)
  show "length (drop_first_col D0 ! i) = kk" using r(2) ds len by (simp add: drop_first_col_def)
  show "drop_first_col D0 ! i = map (\<lambda>j. euclidean (X ! i) (X ! j)) (drop_first_col I0 ! i)"
    using r(2,3) ds by (simp add: drop_first_col_def drop_map)
  show "sorted (drop_first_col D0 ! i)" using r(2) s by (simp add: drop_first_col_def sorted_wrt_drop)
  show "\<forall>j \<in> set (drop_first_col I0 ! i). j < length X"
    using r(3) b by (auto simp: drop_first_col_def dest: in_set_dropD)
  show "distinct (drop_first_col I0 ! i)" using r(3) d by (simp add: drop_first_col_def)
qed



lemma neighbor_search_Inr:
  assumes "knn (py_succ kv) X X = Inr (D0, I0)"
  shows "neighbor_search knn kv X = Inr (drop_first_col D0, drop_first_col I0)"
  using assms by (simp add: neighbor_search_def)


lemma sqrt_squares: "sqrt 9 = 3"
  using real_sqrt_abs[of 3] by simp



text \<open>
  The modelled neighbor index keeps the promise \<open>knn_ok\<close> on every input for which it
  returns, and under that promise \<open>predict\<close> returns for every positive integer \<open>k\<close>.
\<close>

lemma brute_row_ok:
  assumes m: "m \<le> length X" and i: "i < length X"
  shows "knn_row_ok m X i (map fst (brute_row m X (X ! i))) (map snd (brute_row m X (X ! i)))"
proof -
  define e where "e = (\<lambda>j. euclidean (X ! i) (X ! j))"
  define L where "L = map (\<lambda>j. (e j, j)) [0..<length X]"
  define S where "S = sort_key fst L"
  have row: "brute_row m X (X ! i) = take m S"
    by (simp add: brute_row_def S_def L_def e_def)
  have setS: "set S = set L" and lenS: "length S = length X" and sortedS: "sorted (map fst S)"
    by (simp_all add: S_def L_def)
  have el: "\<forall>p \<in> set S. fst p = e (snd p) \<and> snd p < length X"
    by (auto simp: setS L_def)
  have "distinct (map snd L)" by (simp add: L_def comp_def)
  then have dL: "distinct L" and injL: "inj_on snd (set L)" by (simp_all add: distinct_map)
  have dS: "distinct (map snd S)"
    using dL injL by (simp add: distinct_map setS S_def)
  have 1: "length (map snd (take m S)) = m" using m lenS by simp
  have 2: "distinct (map snd (take m S))"
    using dS by (simp add: take_map[symmetric])
  have 3: "\<forall>j \<in> set (map snd (take m S)). j < length X"
    using el by (auto dest: in_set_takeD)
  have 4: "map fst (take m S) = map e (map snd (take m S))"
    using el by (auto dest: in_set_takeD)
  have 5: "sorted (map fst (take m S))"
    using sortedS by (simp add: take_map[symmetric] sorted_wrt_take)
  have 6: "\<forall>j < length X. j \<notin> set (map snd (take m S)) \<longrightarrow> (\<forall>d \<in> set (map fst (take m S)). d \<le> e j)"
  proof (intro allI impI ballI)
    fix j d assume j: "j < length X" and nj: "j \<notin> set (map snd (take m S))"
      and d: "d \<in> set (map fst (take m S))"
    have "(e j, j) \<in> set S" using j by (auto simp: setS L_def)
    then have "(e j, j) \<in> set (take m S) \<union> set (drop m S)"
      by (simp only: set_append[symmetric] append_take_drop_id)
    moreover have "(e j, j) \<notin> set (take m S)" using nj by force
    ultimately have "e j \<in> set (map fst (drop m S))" by force
    moreover have "sorted (map fst (take m S) @ map fst (drop m S))"
      using sortedS by (simp only: map_append[symmetric] append_take_drop_id)
    ultimately show "d \<le> e j" using d unfolding sorted_append by blast
  qed
  show ?thesis
    unfolding knn_row_ok_def row using 1 2 3 4 5 6 by (simp add: e_def)
qed

lemma brute_kneighbors_ok:
  assumes "0 < m" and "m \<le> length X"
  shows "\<exists>D0 I0. brute_kneighbors (PyInt (int m)) X X = Inr (D0, I0) \<and> knn_ok m X D0 I0"
  using assms brute_row_ok[OF assms(2)]
  by (simp add: brute_kneighbors_def knn_ok_def)

lemma for_loop_total:
  assumes body: "\<And>i s. body i s = (case g i of Inl e \<Rightarrow> Inl e | Inr v \<Rightarrow> Inr (s[i := v]))"
    and ok: "\<forall>i \<in> set js. \<exists>v. g i = Inr v"
  shows "\<exists>r. for_loop js body s = Inr r"
  using ok
proof (induction js arbitrary: s)
  case Nil
  then show ?case by simp
next
  case (Cons i js)
  then obtain v where "g i = Inr v" by auto
  with body[of i s] have "body i s = Inr (s[i := v])" by simp
  with Cons show ?case by simp
qed

lemma predict_returns:
  assumes kk: "k (h self) = PyInt (int kk)" and pos: "0 < kk"
    and knn: "knn (PyInt (int kk + 1)) X X = Inr (D0, I0)"
    and ok: "knn_ok (Suc kk) X D0 I0"
  shows "\<exists>lof. predict knn self X h = Inr (lof, h)"
proof -
  let ?D = "drop_first_col D0" and ?I = "drop_first_col I0"
  have ns: "neighbor_search knn (k (h self)) X = Inr (?D, ?I)"
    using knn kk by (intro neighbor_search_Inr) simp
  have lenD: "length ?D = length X" and lenI: "length ?I = length X"
    using ok by (simp_all add: knn_ok_def drop_first_col_def)
  have "\<forall>row \<in> set ?D. row \<noteq> []"
  proof
    fix row assume "row \<in> set ?D"
    then obtain i where i: "i < length X" and r: "row = ?D ! i"
      using lenD by (auto simp: in_set_conv_nth)
    from knn_ok_dropped(2)[OF ok i] pos r show "row \<noteq> []" by auto
  qed
  then have lc: "last_col ?D = Inr (map last ?D)" by (auto simp: last_col_def)
  let ?K = "map last ?D"
  have "\<exists>v. lrd_at (k (h self)) X ?I ?K i = Inr v" if i: "i < length X" for i
  proof -
    note d = knn_ok_dropped[OF ok i]
    have "?I ! i \<noteq> []" using d(1) pos by auto
    then show ?thesis using d(5) i lenI lenD
      by (simp add: lrd_at_def reachability_dists_def nth_row_def take_idx_def row_norms_def row_diff_def)
  qed
  then obtain lrd where lrd: "lrd_loop (k (h self)) X ?I ?K = Inr lrd"
    unfolding lrd_loop_def
    using for_loop_total[where g = "lrd_at (k (h self)) X ?I ?K" and body = "lrd_step (k (h self)) X ?I ?K"
        and js = "[0..<length X]"]
    by (auto simp: lrd_step_def)
  have "\<exists>v. lof_at (k (h self)) ?I lrd i = Inr v" if i: "i < length X" for i
    using knn_ok_dropped(5)[OF ok i] i lenI lrd_loop_Inr(1)[OF lrd]
    by (simp add: lof_at_def nth_row_def take_idx_def)
  then obtain lof where lof: "lof_loop (k (h self)) X ?I lrd = Inr lof"
    unfolding lof_loop_def
    using for_loop_total[where g = "lof_at (k (h self)) ?I lrd" and body = "lof_step (k (h self)) ?I lrd"
        and js = "[0..<length X]"]
    by (auto simp: lof_step_def)
  from ns lc lrd lof show ?thesis by (auto simp: predict_def)
qed

text \<open>
  Whatever the order among ties: a search that answers three equal points with the same
  row of two indices leaves some point out of its own row.
\<close>

lemma equal_points_exclude_self:
  assumes ok: "knn_ok 2 [[0], [0], [0]] D0 I0"
    and same: "I0 ! 1 = I0 ! 0" "I0 ! 2 = I0 ! 0"
  shows "\<exists>i < 3. i \<notin> set (I0 ! i)"
proof -
  have "knn_row_ok 2 [[0], [0], [0]] 0 (D0 ! 0) (I0 ! 0)"
    using ok by (simp add: knn_ok_def)
  then have "length (I0 ! 0) = 2" by (simp add: knn_row_ok_def)
  then have "card (set (I0 ! 0)) \<le> 2" using card_length[of "I0 ! 0"] by simp
  moreover have "card {0, 1, 2::nat} = 3" by simp
  ultimately have "\<not> {0, 1, 2} \<subseteq> set (I0 ! 0)"
    using card_mono[of "set (I0 ! 0)" "{0, 1, 2::nat}"] by auto
  then have "0 \<notin> set (I0 ! 0) \<or> 1 \<notin> set (I0 ! 1) \<or> 2 \<notin> set (I0 ! 2)"
    using same by auto
  then show ?thesis
  proof (elim disjE)
    assume "0 \<notin> set (I0 ! 0)" then show ?thesis by (intro exI[of _ 0]) simp
  next
    assume "1 \<notin> set (I0 ! 1)" then show ?thesis by (intro exI[of _ 1]) simp
  next
    assume "2 \<notin> set (I0 ! 2)" then show ?thesis by (intro exI[of _ 2]) simp
  qed
qed

section \<open>Results about \<open>fit\<close>\<close>

text \<open>
  Claim C5. \<open>fit\<close> raises its error (the \<open>ValueError\<close> with the message
  "k needs to be a positive integer.") exactly when \<open>k\<close> is not a positive integer; for
  \<open>k = 0\<close>, \<open>k = -3\<close> and \<open>k = 2.5\<close> it raises; the error comes from \<open>fit\<close> itself, while the
  constructor accepts any \<open>k\<close>; and when \<open>fit\<close> does not raise it returns the reference it
  was called on, having stored the data in \<open>X_\<close> and left \<open>k\<close> as it was.
\<close>

theorem fit_validates_k:
  "(fit self X h = Inl (ValueError ''k needs to be a positive integer.'')
      \<or> (\<exists>h'. fit self X h = Inr (self, h') \<and> k (h' self) = k (h self) \<and> X_stored (h' self) = X))
   \<and> ((\<exists>e. fit self X h = Inl e) \<longleftrightarrow> (\<nexists>n. 0 < n \<and> k (h self) = PyInt n))
   \<and> (\<exists>e. fit self X (init self (PyInt 0) h) = Inl e)
   \<and> (\<exists>e. fit self X (init self (PyInt (- 3)) h) = Inl e)
   \<and> (\<exists>e. fit self X (init self (PyFloat 2.5) h) = Inl e)
   \<and> k (init self kv h self) = kv"
  by (cases "k (h self)") (auto simp: fit_def init_def)

section \<open>Results about \<open>predict\<close>\<close>

text \<open>
  Claim C1. Whenever \<open>predict\<close> returns, the returned array has one score per row of \<open>X\<close>,
  and the score at position \<open>i\<close> is the sum of the \<open>lrd\<close> values of the neighbors of point
  \<open>i\<close> divided by the product of \<open>lrd(i)\<close> and \<open>k\<close> (numpy division, so a zero or
  infinite divisor gives an exceptional value instead of raising).
\<close>

theorem predict_scores:
  assumes "predict knn self X h = Inr (lof, h')"
  shows "length lof = length X \<and>
     (\<exists>distances indices k_dists lrd.
        predict_run knn (k (h self)) X distances indices k_dists lrd lof
        \<and> (\<forall>i < length X. lof ! i =
              fdiv (fsum (map (\<lambda>j. lrd ! j) (indices ! i)))
                   (fmul (lrd ! i) (Fin (py_real (k (h self)))))))"
proof -
  from assms obtain distances indices k_dists lrd
    where run: "predict_run knn (k (h self)) X distances indices k_dists lrd lof"
    by (auto simp: predict_run_iff)
  then have lrdl: "lrd_loop (k (h self)) X indices k_dists = Inr lrd"
    and lofl: "lof_loop (k (h self)) X indices lrd = Inr lof"
    by (simp_all add: predict_run_def)
  have "lof ! i = fdiv (fsum (map (\<lambda>j. lrd ! j) (indices ! i)))
                   (fmul (lrd ! i) (Fin (py_real (k (h self)))))" if i: "i < length X" for i
  proof -
    from lrd_at_Inr[OF lrd_loop_Inr(2)[OF lrdl i]] obtain rd
      where rd: "reachability_dists X indices k_dists i = Inr rd"
        and v: "lrd ! i = fdiv (Fin (py_real (k (h self)))) (Fin (sum_list rd))" by blast
    have "lof ! i = fdiv (fdiv (fsum (map (\<lambda>j. lrd ! j) (indices ! i))) (lrd ! i)) (Fin (py_real (k (h self))))"
      using lof_at_Inr(3)[OF lof_loop_Inr(2)[OF lofl i]] .
    also have "\<dots> = fdiv (fsum (map (\<lambda>j. lrd ! j) (indices ! i))) (fmul (lrd ! i) (Fin (py_real (k (h self)))))"
      by (rule fdiv_twice[OF reachability_dists_nonneg[OF rd] v])
    finally show ?thesis .
  qed
  with run lof_loop_Inr(1)[OF lofl] show ?thesis by blast
qed

theorem predict_scores_witness:
  "predict brute_kneighbors 0 [[0], [1], [3]] (\<lambda>r. \<lparr>k = PyInt 2, X_stored = None\<rparr>)
      = Inr ([Fin (11/12), Fin (6/5), Fin (11/12)], (\<lambda>r. \<lparr>k = PyInt 2, X_stored = None\<rparr>))
   \<and> length [Fin (11/12), Fin (6/5), Fin (11/12)] = length [[0], [1], [3::real]]
   \<and> (\<exists>distances indices k_dists lrd.
        predict_run brute_kneighbors (PyInt 2) [[0], [1], [3]] distances indices k_dists lrd
          [Fin (11/12), Fin (6/5), Fin (11/12)]
        \<and> (\<forall>i < length [[0], [1], [3::real]]. [Fin (11/12), Fin (6/5), Fin (11/12)] ! i =
              fdiv (fsum (map (\<lambda>j. lrd ! j) (indices ! i))) (fmul (lrd ! i) (Fin 2))))"
proof -
  have run: "predict brute_kneighbors 0 [[0], [1], [3]] (\<lambda>r. \<lparr>k = PyInt 2, X_stored = None\<rparr>)
      = Inr ([Fin (11/12), Fin (6/5), Fin (11/12)], (\<lambda>r. \<lparr>k = PyInt 2, X_stored = None\<rparr>))"
    by (simp add: predict_eval sqrt_squares)
  from predict_scores[OF run] run show ?thesis by simp
qed

text \<open>
  Claim C2. In a run of \<open>predict\<close>, the value stored in \<open>lrd_value[i]\<close> is \<open>k\<close> divided
  (numpy division) by the sum, over the neighbors \<open>j\<close> of point \<open>i\<close>, of the maximum of the
  Euclidean distance from \<open>X[i]\<close> to \<open>X[j]\<close> and the k-distance of \<open>j\<close>, the k-distance of
  \<open>j\<close> being the last entry of row \<open>j\<close> of \<open>distances\<close>.
\<close>

theorem lrd_is_k_over_reach_sum:
  assumes "predict knn self X h = Inr (lof, h')"
    and "predict_run knn (k (h self)) X distances indices k_dists lrd lof"
    and "i < length X"
  shows "lrd ! i = fdiv (Fin (py_real (k (h self))))
                     (Fin (\<Sum>j\<leftarrow>indices ! i. max (euclidean (X ! i) (X ! j)) (k_dists ! j)))
     \<and> (\<forall>j \<in> set (indices ! i). j < length X \<and> k_dists ! j = last (distances ! j))"
proof -
  from assms(2) have lc: "last_col distances = Inr k_dists"
    and lrdl: "lrd_loop (k (h self)) X indices k_dists = Inr lrd"
    by (simp_all add: predict_run_def)
  from lrd_at_Inr[OF lrd_loop_Inr(2)[OF lrdl assms(3)]] obtain rd
    where rd: "reachability_dists X indices k_dists i = Inr rd"
      and v: "lrd ! i = fdiv (Fin (py_real (k (h self)))) (Fin (sum_list rd))" by blast
  note facts = reachability_dists_Inr[OF rd]
  have "\<forall>j \<in> set (indices ! i). j < length X \<and> k_dists ! j = last (distances ! j)"
    using facts(2) last_col_Inr[OF lc] by auto
  with v facts(3) show ?thesis by simp
qed

theorem lrd_is_k_over_reach_sum_witness:
  "predict brute_kneighbors 0 [[0], [1], [3]] (\<lambda>r. \<lparr>k = PyInt 2, X_stored = None\<rparr>)
     = Inr ([Fin (11/12), Fin (6/5), Fin (11/12)], (\<lambda>r. \<lparr>k = PyInt 2, X_stored = None\<rparr>))
   \<and> predict_run brute_kneighbors (PyInt 2) [[0], [1], [3]]
      [[1, 3], [1, 2], [2, 3]] [[1, 2], [0, 2], [1, 0]] [3, 2, 3]
      [Fin (2/5), Fin (1/3), Fin (2/5)] [Fin (11/12), Fin (6/5), Fin (11/12)]
   \<and> (1::nat) < length [[0], [1], [3::real]]
   \<and> [Fin (2/5), Fin (1/3), Fin (2/5)] ! 1 = fdiv (Fin 2) (Fin (max 1 3 + max 2 3))
   \<and> [3, 2, 3::real] ! 0 = last ([[1, 3], [1, 2], [2, 3]] ! 0)
   \<and> [3, 2, 3::real] ! 2 = last ([[1, 3], [1, 2], [2, 3]] ! 2)"
proof -
  let ?H = "\<lambda>r::ref. \<lparr>k = PyInt 2, X_stored = None\<rparr>"
  have run: "predict_run brute_kneighbors (k (?H 0)) [[0], [1], [3]]
      [[1, 3], [1, 2], [2, 3]] [[1, 2], [0, 2], [1, 0]] [3, 2, 3]
      [Fin (2/5), Fin (1/3), Fin (2/5)] [Fin (11/12), Fin (6/5), Fin (11/12)]"
    by (simp add: predict_run_def predict_eval sqrt_squares)
  have p: "predict brute_kneighbors 0 [[0], [1], [3]] ?H
     = Inr ([Fin (11/12), Fin (6/5), Fin (11/12)], ?H)"
    using run by (auto simp: predict_run_iff)
  have i: "(1::nat) < length [[0], [1], [3::real]]" by simp
  from lrd_is_k_over_reach_sum[OF p run i] p run show ?thesis
    by (simp add: euclidean_def sqrt_squares)
qed






text \<open>
  Claim C6, as amended. \<open>predict\<close> makes no check of the number of points against \<open>k\<close>:
  whatever error the neighbor search raises is the error of \<open>predict\<close>, unchanged.
\<close>

theorem predict_propagates_search_error:
  assumes "knn (py_succ (k (h self))) X X = Inl e"
  shows "predict knn self X h = Inl e"
  using assms by (simp add: predict_def neighbor_search_def)

theorem predict_propagates_search_error_witness:
  "brute_kneighbors (py_succ (k ((\<lambda>r. \<lparr>k = PyInt 5, X_stored = None\<rparr>) (0::ref)))) [[0], [1], [3]] [[0], [1], [3]]
     = Inl (ValueError ''Expected n_neighbors <= n_samples'')
   \<and> predict brute_kneighbors 0 [[0], [1], [3]] (\<lambda>r. \<lparr>k = PyInt 5, X_stored = None\<rparr>)
     = Inl (ValueError ''Expected n_neighbors <= n_samples'')"
proof -
  have e: "brute_kneighbors (py_succ (k ((\<lambda>r. \<lparr>k = PyInt 5, X_stored = None\<rparr>) (0::ref)))) [[0], [1], [3]] [[0], [1], [3]]
     = Inl (ValueError ''Expected n_neighbors <= n_samples'')"
    by (simp add: brute_kneighbors_def)
  from predict_propagates_search_error[where knn = brute_kneighbors and self = 0
      and h = "\<lambda>r. \<lparr>k = PyInt 5, X_stored = None\<rparr>" and X = "[[0], [1], [3]]"
      and e = "ValueError ''Expected n_neighbors <= n_samples''"] e
  show ?thesis by simp
qed

text \<open>
  Claim C6 as stated fails: for two points and \<open>k = 2\<close> the error that \<open>predict\<close> raises
  is the very error of the neighbor search.
\<close>

theorem predict_insufficient_data_counterexample:
  "brute_kneighbors (PyInt 3) [[0], [1]] [[0], [1]]
     = Inl (ValueError ''Expected n_neighbors <= n_samples'')
   \<and> predict brute_kneighbors 0 [[0], [1]] (\<lambda>r. \<lparr>k = PyInt 2, X_stored = None\<rparr>)
     = Inl (ValueError ''Expected n_neighbors <= n_samples'')"
  by (simp add: predict_eval)

text \<open>
  Claim C7, as amended. When \<open>k\<close> is positive and the reachability distances of point
  \<open>i\<close> sum to zero, the division is numpy's: \<open>lrd_value[i]\<close> becomes \<open>+inf\<close>, nothing is
  raised or clamped, and the score returned for point \<open>i\<close> is NaN or 0.
\<close>

theorem zero_reach_sum_gives_infinite_lrd:
  assumes "predict knn self X h = Inr (lof, h')"
    and "predict_run knn (k (h self)) X distances indices k_dists lrd lof"
    and "i < length X"
    and "0 < py_real (k (h self))"
    and "reachability_dists X indices k_dists i = Inr rd"
    and "sum_list rd = 0"
  shows "lrd_at (k (h self)) X indices k_dists i = Inr PInf
     \<and> lrd ! i = PInf \<and> (lof ! i = NaN \<or> lof ! i = Fin 0)"
proof -
  from assms(2) have lrdl: "lrd_loop (k (h self)) X indices k_dists = Inr lrd"
    and lofl: "lof_loop (k (h self)) X indices lrd = Inr lof"
    by (simp_all add: predict_run_def)
  note at = lrd_loop_Inr(2)[OF lrdl assms(3)]
  from lrd_at_Inr[OF at] assms(4,5,6)
  have inf: "lrd ! i = PInf" by auto
  have "lof ! i = fdiv (fdiv (fsum (map (\<lambda>j. lrd ! j) (indices ! i))) PInf) (Fin (py_real (k (h self))))"
    using lof_at_Inr(3)[OF lof_loop_Inr(2)[OF lofl assms(3)]] inf by simp
  then have "lof ! i = NaN \<or> lof ! i = Fin 0"
    using assms(4) by (cases "fsum (map (\<lambda>j. lrd ! j) (indices ! i))") auto
  with inf at show ?thesis by simp
qed

theorem zero_reach_sum_gives_infinite_lrd_witness:
  "predict brute_kneighbors 0 [[0], [0], [1]] (\<lambda>r. \<lparr>k = PyInt 1, X_stored = None\<rparr>)
     = Inr ([NaN, NaN, PInf], (\<lambda>r. \<lparr>k = PyInt 1, X_stored = None\<rparr>))
   \<and> predict_run brute_kneighbors (PyInt 1) [[0], [0], [1]]
        [[0], [0], [1]] [[1], [1], [0]] [0, 0, 1] [PInf, PInf, Fin 1] [NaN, NaN, PInf]
   \<and> (0::nat) < length [[0], [0], [1::real]]
   \<and> 0 < py_real (PyInt 1)
   \<and> reachability_dists [[0], [0], [1]] [[1], [1], [0]] [0, 0, 1] 0 = Inr [0]
   \<and> sum_list [0::real] = 0
   \<and> lrd_at (PyInt 1) [[0], [0], [1]] [[1], [1], [0]] [0, 0, 1] 0 = Inr PInf
   \<and> [PInf, PInf, Fin 1] ! 0 = PInf
   \<and> [NaN, NaN, PInf] ! 0 = NaN"
proof -
  let ?H = "\<lambda>r::ref. \<lparr>k = PyInt 1, X_stored = None\<rparr>"
  have run: "predict_run brute_kneighbors (k (?H 0)) [[0], [0], [1]]
        [[0], [0], [1]] [[1], [1], [0]] [0, 0, 1] [PInf, PInf, Fin 1] [NaN, NaN, PInf]"
    by (simp add: predict_run_def predict_eval)
  have p: "predict brute_kneighbors 0 [[0], [0], [1]] ?H = Inr ([NaN, NaN, PInf], ?H)"
    using run by (auto simp: predict_run_iff)
  have i: "(0::nat) < length [[0], [0], [1::real]]" by simp
  have kpos: "0 < py_real (k (?H 0))" by simp
  have rd: "reachability_dists [[0], [0], [1]] [[1], [1], [0]] [0, 0, 1] 0 = Inr [0]"
    by (simp add: predict_eval)
  have z: "sum_list [0::real] = 0" by simp
  from zero_reach_sum_gives_infinite_lrd[OF p run i kpos rd z] p run rd show ?thesis
    by simp
qed

text \<open>
  Claim C7 as stated fails: for the points 0, 0, 1 and \<open>k = 1\<close>, \<open>predict\<close> returns the
  scores NaN, NaN and \<open>+inf\<close>.
\<close>

theorem predict_degenerate_counterexample:
  "predict brute_kneighbors 0 [[0], [0], [1]] (\<lambda>r. \<lparr>k = PyInt 1, X_stored = None\<rparr>)
     = Inr ([NaN, NaN, PInf], (\<lambda>r. \<lparr>k = PyInt 1, X_stored = None\<rparr>))"
  by (simp add: predict_eval)



text \<open>
  Claim C9. A call of \<open>predict\<close> that returns leaves the store as it was (so \<open>k\<close> and the
  stored data of every detector are unchanged), and its scores depend on \<open>X\<close> and \<open>k\<close> only:
  any detector with the same \<open>k\<close>, in any store, returns the same scores for \<open>X\<close>. The input
  \<open>X\<close> is a value that \<open>predict\<close> only reads.
\<close>

theorem predict_no_side_effects:
  assumes "predict knn self X h = Inr (lof, h')"
  shows "h' = h \<and> (\<forall>self2 h2. k (h2 self2) = k (h self) \<longrightarrow> predict knn self2 X h2 = Inr (lof, h2))"
  using assms by (auto simp: predict_run_iff)

theorem predict_no_side_effects_witness:
  "predict brute_kneighbors 0 [[0], [1], [3]] (\<lambda>r. \<lparr>k = PyInt 2, X_stored = None\<rparr>)
     = Inr ([Fin (11/12), Fin (6/5), Fin (11/12)], (\<lambda>r. \<lparr>k = PyInt 2, X_stored = None\<rparr>))
   \<and> predict brute_kneighbors 7 [[0], [1], [3]] (\<lambda>r. \<lparr>k = PyInt 2, X_stored = Some [[5]]\<rparr>)
     = Inr ([Fin (11/12), Fin (6/5), Fin (11/12)], (\<lambda>r. \<lparr>k = PyInt 2, X_stored = Some [[5]]\<rparr>))"
proof -
  let ?H = "\<lambda>r::ref. \<lparr>k = PyInt 2, X_stored = None\<rparr>"
  let ?H2 = "\<lambda>r::ref. \<lparr>k = PyInt 2, X_stored = Some [[5]]\<rparr>"
  have p: "predict brute_kneighbors 0 [[0], [1], [3]] ?H
     = Inr ([Fin (11/12), Fin (6/5), Fin (11/12)], ?H)"
    by (simp add: predict_eval sqrt_squares)
  from predict_no_side_effects[OF p]
  have a: "\<And>self2 h2. k (h2 self2) = PyInt 2 \<Longrightarrow>
      predict brute_kneighbors self2 [[0], [1], [3]] h2 = Inr ([Fin (11/12), Fin (6/5), Fin (11/12)], h2)"
    by simp
  have "predict brute_kneighbors 7 [[0], [1], [3]] ?H2 = Inr ([Fin (11/12), Fin (6/5), Fin (11/12)], ?H2)"
    by (rule a) simp
  with p show ?thesis by simp
qed



end
